theory Spec2Isabelle
  imports Main "HOL-Library.Sublist"
begin

section \<open>Python strings\<close>

text \<open>
  A Python \<open>str\<close> is modelled as a \<open>string\<close> (a list of characters).  The functions
  of this section are the string methods the replacement and scan code calls.
\<close>

text \<open>\<open>sub in s\<close>: \<open>sub\<close> occurs in \<open>s\<close> as a contiguous substring.\<close>

fun is_substring :: "string \<Rightarrow> string \<Rightarrow> bool" where
  "is_substring sub [] = (sub = [])"
| "is_substring sub (c # cs) = (prefix sub (c # cs) \<or> is_substring sub cs)"

text \<open>
  \<open>s.replace(old, new)\<close> for a non-empty \<open>old\<close>: one scan from the left, every
  occurrence found is replaced and the scan goes on behind it (occurrences do not
  overlap, replaced text is not scanned again).
\<close>

function replace_scan :: "string \<Rightarrow> string \<Rightarrow> string \<Rightarrow> string" where
  "replace_scan old new [] = []"
| "replace_scan old new (c # cs) =
     (if old \<noteq> [] \<and> prefix old (c # cs)
      then new @ replace_scan old new (drop (length old) (c # cs))
      else c # replace_scan old new cs)"
  by pat_completeness auto
termination
  by (relation "measure (\<lambda>(old, new, s). length s)") auto

text \<open>
  \<open>s.replace(old, new)\<close>.  With an empty \<open>old\<close> Python inserts \<open>new\<close> before every
  character and at the end.
\<close>

definition py_replace :: "string \<Rightarrow> string \<Rightarrow> string \<Rightarrow> string" where
  "py_replace s old new =
     (if old = [] then new @ concat (map (\<lambda>c. c # new) s) else replace_scan old new s)"

text \<open>\<open>s.replace(old, new, 1)\<close>: only the leftmost occurrence is replaced.\<close>

fun py_replace1 :: "string \<Rightarrow> string \<Rightarrow> string \<Rightarrow> string" where
  "py_replace1 [] old new = (if old = [] then new else [])"
| "py_replace1 (c # cs) old new =
     (if prefix old (c # cs) then new @ drop (length old) (c # cs)
      else c # py_replace1 cs old new)"

section \<open>The regular-expression library, as the replacement code sees it\<close>

text \<open>
  The exceptions of the model.  \<open>ReError\<close> is \<open>re.error\<close>; \<open>TypeError\<close> and
  \<open>PermissionError\<close> are the Python exceptions of these names and \<open>OSError\<close> stands
  for every other failure of a file operation; these are caught by \<open>except Exception\<close>.
  \<open>NotModelled\<close> is no Python exception: it is the answer of the concrete library
  model \<open>py_re\<close> below on a pattern or template outside the fragment it covers.
\<close>

datatype py_exception = ReError | TypeError | OSError | PermissionError | NotModelled

text \<open>
  A match object: \<open>group0\<close> is \<open>match.group(0)\<close>, \<open>groups\<close> is \<open>match.groups()\<close>, one
  entry per capture group of the pattern, \<open>None\<close> for a group that took no part in the
  match.
\<close>

record re_match =
  group0 :: string
  groups :: "string option list"

text \<open>
  A scan of a text by a pattern cuts it into the leftmost non-overlapping matches and
  the unmatched text between them.
\<close>

datatype segment = Gap string | Hit re_match

text \<open>
  A compiled pattern: \<open>finditer\<close> scans a text, \<open>expand\<close> compiles a replacement
  template (a string \<open>repl\<close> argument of \<open>re.sub\<close>) into the function giving the text
  that replaces a match, or raises.
\<close>

record re_pattern =
  finditer :: "string \<Rightarrow> segment list"
  expand :: "string \<Rightarrow> py_exception + (re_match \<Rightarrow> string)"

text \<open>
  The library itself is a parameter of the model: \<open>re.compile\<close>, which raises
  \<open>re.error\<close> on an invalid pattern.
\<close>

type_synonym re_engine = "string \<Rightarrow> py_exception + re_pattern"

text \<open>
  Rebuilding the text: gaps are kept, each match is replaced by what the callback
  returns; an exception of the callback leaves \<open>re.sub\<close>.
\<close>

fun sub_segments :: "(re_match \<Rightarrow> py_exception + string) \<Rightarrow> segment list \<Rightarrow> py_exception + string" where
  "sub_segments f [] = Inr []"
| "sub_segments f (Gap g # segs) =
     (case sub_segments f segs of Inl e \<Rightarrow> Inl e | Inr rest \<Rightarrow> Inr (g @ rest))"
| "sub_segments f (Hit m # segs) =
     (case f m of
        Inl e \<Rightarrow> Inl e
      | Inr r \<Rightarrow> (case sub_segments f segs of Inl e \<Rightarrow> Inl e | Inr rest \<Rightarrow> Inr (r @ rest)))"

text \<open>\<open>re.sub(pattern, repl, string)\<close> with a callable \<open>repl\<close>.\<close>

definition re_sub_fn :: "re_engine \<Rightarrow> string \<Rightarrow> (re_match \<Rightarrow> py_exception + string) \<Rightarrow> string \<Rightarrow> py_exception + string" where
  "re_sub_fn eng pattern repl s =
     (case eng pattern of
        Inl e \<Rightarrow> Inl e
      | Inr p \<Rightarrow> sub_segments repl (finditer p s))"

text \<open>\<open>re.sub(pattern, repl, string)\<close> with a string \<open>repl\<close>: the template is compiled first.\<close>

definition re_sub_str :: "re_engine \<Rightarrow> string \<Rightarrow> string \<Rightarrow> string \<Rightarrow> py_exception + string" where
  "re_sub_str eng pattern repl s =
     (case eng pattern of
        Inl e \<Rightarrow> Inl e
      | Inr p \<Rightarrow>
          (case expand p repl of
             Inl e \<Rightarrow> Inl e
           | Inr f \<Rightarrow> sub_segments (\<lambda>m. Inr (f m)) (finditer p s)))"

text \<open>\<open>re.search(pattern, string)\<close>, read as a truth value.\<close>

fun has_hit :: "segment list \<Rightarrow> bool" where
  "has_hit [] = False"
| "has_hit (Gap g # segs) = has_hit segs"
| "has_hit (Hit m # segs) = True"

definition re_search :: "re_engine \<Rightarrow> string \<Rightarrow> string \<Rightarrow> py_exception + bool" where
  "re_search eng pattern s =
     (case eng pattern of
        Inl e \<Rightarrow> Inl e
      | Inr p \<Rightarrow> Inr (has_hit (finditer p s)))"

section \<open>The replacement engine: DocumentProcessor.perform_replacement_in_doc\<close>

definition placeholder :: string where
  "placeholder = ''{{match}}''"

text \<open>
  The loop \<open>for i, group in enumerate(matched_groups)\<close> of \<open>replace_with_match\<close>:
  \<open>replacement.replace("{{match}}", group, 1)\<close> raises \<open>TypeError\<close> when \<open>group\<close> is
  \<open>None\<close>.
\<close>

fun fill_groups :: "string \<Rightarrow> string option list \<Rightarrow> py_exception + string" where
  "fill_groups replacement [] = Inr replacement"
| "fill_groups replacement (None # gs) = Inl TypeError"
| "fill_groups replacement (Some g # gs) = fill_groups (py_replace1 replacement placeholder g) gs"

text \<open>The callback \<open>replace_with_match\<close>, closed over the rule's \<open>new_text\<close>.\<close>

definition replace_with_match :: "string \<Rightarrow> re_match \<Rightarrow> py_exception + string" where
  "replace_with_match new_text m =
     (if groups m \<noteq> [] then fill_groups new_text (groups m)
      else Inr (py_replace new_text placeholder (group0 m)))"

text \<open>
  The body of the \<open>try\<close> inside \<open>for old_text, new_text in replacement_map.items()\<close>:
  the new value of \<open>modified_text\<close>, or the exception raised.
\<close>

definition apply_rule :: "re_engine \<Rightarrow> bool \<Rightarrow> string \<Rightarrow> string \<times> string \<Rightarrow> py_exception + string" where
  "apply_rule eng regex_mode modified_text rule =
     (case rule of (old_text, new_text) \<Rightarrow>
        if regex_mode then
          (if is_substring placeholder new_text
           then re_sub_fn eng old_text (replace_with_match new_text) modified_text
           else re_sub_str eng old_text new_text modified_text)
        else
          (if is_substring old_text modified_text
           then Inr (py_replace modified_text old_text new_text)
           else Inr modified_text))"

text \<open>
  The loop over the rules, in the order of \<open>replacement_map.items()\<close> (a Python dict
  keeps insertion order, so the mapping is the list of its items).  Both \<open>except\<close>
  clauses \<open>continue\<close>: a rule that raises leaves \<open>modified_text\<close> as it was.
\<close>

fun apply_rules :: "re_engine \<Rightarrow> bool \<Rightarrow> string \<Rightarrow> (string \<times> string) list \<Rightarrow> string" where
  "apply_rules eng regex_mode modified_text [] = modified_text"
| "apply_rules eng regex_mode modified_text (rule # rules) =
     (case apply_rule eng regex_mode modified_text rule of
        Inl e \<Rightarrow> apply_rules eng regex_mode modified_text rules
      | Inr t \<Rightarrow> apply_rules eng regex_mode t rules)"


section \<open>Documents\<close>

text \<open>
  The document object is opaque to the code: \<open>doc.paragraphs\<close> is the sequence of
  top-level paragraphs, \<open>doc.tables\<close> a sequence of tables, each a sequence of rows of
  cells of paragraphs.  A paragraph is its text, which can be read and set; reading and
  setting it are taken not to raise.
\<close>

type_synonym docx_paragraph = string
type_synonym cell = "docx_paragraph list"
type_synonym row = "cell list"
type_synonym table = "row list"

record document =
  paragraphs :: "docx_paragraph list"
  tables :: "table list"

text \<open>One entry of \<open>replacement_details\<close>.\<close>

record replacement_detail =
  location :: string
  original :: string
  modified :: string

text \<open>The two results the function accumulates.\<close>

record tally =
  replacements_made :: nat
  replacement_details :: "replacement_detail list"

text \<open>\<open>str(n)\<close> of a non-negative index, as the f-strings of the locations print it.\<close>

definition digit_char :: "nat \<Rightarrow> char" where
  "digit_char d = char_of (48 + d)"

function str_nat :: "nat \<Rightarrow> string" where
  "str_nat n = (if n < 10 then [digit_char n] else str_nat (n div 10) @ [digit_char (n mod 10)])"
  by pat_completeness auto
termination
  by (relation "measure (\<lambda>n. n)") auto

declare str_nat.simps [simp del]

text \<open>\<open>text[:limit] + '...' if len(text) > limit else text\<close>.\<close>

definition preview :: "nat \<Rightarrow> string \<Rightarrow> string" where
  "preview limit text = (if length text > limit then take limit text @ ''...'' else text)"

text \<open>
  What the code does with one paragraph, at the top level (preview limit 100) and in a
  table cell (preview limit 50): apply the rules, and when the text changed write it
  back, count it and append its detail.
\<close>

definition process_para :: "re_engine \<Rightarrow> bool \<Rightarrow> (string \<times> string) list \<Rightarrow> string \<Rightarrow> nat \<Rightarrow> docx_paragraph \<Rightarrow> tally \<Rightarrow> docx_paragraph \<times> tally" where
  "process_para eng regex_mode replacement_map loc limit original_text acc =
     (let modified_text = apply_rules eng regex_mode original_text replacement_map in
      if modified_text \<noteq> original_text
      then (modified_text,
            \<lparr>replacements_made = replacements_made acc + 1,
             replacement_details = replacement_details acc @
               [\<lparr>location = loc,
                 original = preview limit original_text,
                 modified = preview limit modified_text\<rparr>]\<rparr>)
      else (original_text, acc))"

text \<open>\<open>for para_idx, para in enumerate(doc.paragraphs)\<close>.\<close>

fun paragraphs_loop :: "re_engine \<Rightarrow> bool \<Rightarrow> (string \<times> string) list \<Rightarrow> nat \<Rightarrow> docx_paragraph list \<Rightarrow> tally \<Rightarrow> docx_paragraph list \<times> tally" where
  "paragraphs_loop eng regex_mode replacement_map para_idx [] acc = ([], acc)"
| "paragraphs_loop eng regex_mode replacement_map para_idx (para # paras) acc =
     (case process_para eng regex_mode replacement_map
             (''paragraph_'' @ str_nat para_idx) 100 para acc of
        (para', acc') \<Rightarrow>
          (case paragraphs_loop eng regex_mode replacement_map (Suc para_idx) paras acc' of
             (paras', acc'') \<Rightarrow> (para' # paras', acc'')))"

text \<open>\<open>for para_idx, para in enumerate(cell.paragraphs)\<close>, inside a cell.\<close>

fun cell_loop :: "re_engine \<Rightarrow> bool \<Rightarrow> (string \<times> string) list \<Rightarrow> nat \<Rightarrow> nat \<Rightarrow> nat \<Rightarrow> nat \<Rightarrow> docx_paragraph list \<Rightarrow> tally \<Rightarrow> docx_paragraph list \<times> tally" where
  "cell_loop eng regex_mode replacement_map table_idx row_idx cell_idx para_idx [] acc = ([], acc)"
| "cell_loop eng regex_mode replacement_map table_idx row_idx cell_idx para_idx (para # paras) acc =
     (case process_para eng regex_mode replacement_map
             (''table_'' @ str_nat table_idx @ ''_row_'' @ str_nat row_idx @
              ''_cell_'' @ str_nat cell_idx @ ''_para_'' @ str_nat para_idx) 50 para acc of
        (para', acc') \<Rightarrow>
          (case cell_loop eng regex_mode replacement_map table_idx row_idx cell_idx
                  (Suc para_idx) paras acc' of
             (paras', acc'') \<Rightarrow> (para' # paras', acc'')))"

text \<open>\<open>for cell_idx, cell in enumerate(row.cells)\<close>.\<close>

fun row_loop :: "re_engine \<Rightarrow> bool \<Rightarrow> (string \<times> string) list \<Rightarrow> nat \<Rightarrow> nat \<Rightarrow> nat \<Rightarrow> cell list \<Rightarrow> tally \<Rightarrow> cell list \<times> tally" where
  "row_loop eng regex_mode replacement_map table_idx row_idx cell_idx [] acc = ([], acc)"
| "row_loop eng regex_mode replacement_map table_idx row_idx cell_idx (c # cells) acc =
     (case cell_loop eng regex_mode replacement_map table_idx row_idx cell_idx 0 c acc of
        (c', acc') \<Rightarrow>
          (case row_loop eng regex_mode replacement_map table_idx row_idx (Suc cell_idx) cells acc' of
             (cells', acc'') \<Rightarrow> (c' # cells', acc'')))"

text \<open>\<open>for row_idx, row in enumerate(table.rows)\<close>.\<close>

fun table_loop :: "re_engine \<Rightarrow> bool \<Rightarrow> (string \<times> string) list \<Rightarrow> nat \<Rightarrow> nat \<Rightarrow> row list \<Rightarrow> tally \<Rightarrow> row list \<times> tally" where
  "table_loop eng regex_mode replacement_map table_idx row_idx [] acc = ([], acc)"
| "table_loop eng regex_mode replacement_map table_idx row_idx (r # rows) acc =
     (case row_loop eng regex_mode replacement_map table_idx row_idx 0 r acc of
        (r', acc') \<Rightarrow>
          (case table_loop eng regex_mode replacement_map table_idx (Suc row_idx) rows acc' of
             (rows', acc'') \<Rightarrow> (r' # rows', acc'')))"

text \<open>\<open>for table_idx, table in enumerate(doc.tables)\<close>.\<close>

fun tables_loop :: "re_engine \<Rightarrow> bool \<Rightarrow> (string \<times> string) list \<Rightarrow> nat \<Rightarrow> table list \<Rightarrow> tally \<Rightarrow> table list \<times> tally" where
  "tables_loop eng regex_mode replacement_map table_idx [] acc = ([], acc)"
| "tables_loop eng regex_mode replacement_map table_idx (t # ts) acc =
     (case table_loop eng regex_mode replacement_map table_idx 0 t acc of
        (t', acc') \<Rightarrow>
          (case tables_loop eng regex_mode replacement_map (Suc table_idx) ts acc' of
             (ts', acc'') \<Rightarrow> (t' # ts', acc'')))"

text \<open>
  \<open>perform_replacement_in_doc\<close>: the document as the code leaves it, and the pair the
  function returns.
\<close>

definition perform_replacement_in_doc :: "re_engine \<Rightarrow> document \<Rightarrow> (string \<times> string) list \<Rightarrow> bool \<Rightarrow> document \<times> nat \<times> replacement_detail list" where
  "perform_replacement_in_doc eng doc replacement_map regex_mode =
     (case paragraphs_loop eng regex_mode replacement_map 0 (paragraphs doc)
             \<lparr>replacements_made = 0, replacement_details = []\<rparr> of
        (paras', acc) \<Rightarrow>
          (case tables_loop eng regex_mode replacement_map 0 (tables doc) acc of
             (tables', acc') \<Rightarrow>
               (\<lparr>paragraphs = paras', tables = tables'\<rparr>,
                replacements_made acc', replacement_details acc')))"





section \<open>Conditions on rule mappings\<close>





section \<open>A concrete model of the library on a fragment of its syntax\<close>

text \<open>
  The theorems about regex mode hold for every library \<open>eng\<close>.  To evaluate the code on
  concrete rules, this section models Python's \<open>re\<close> on a fragment: texts and patterns
  are ASCII; a pattern is built from ordinary characters, \<open>.\<close>, the classes
  \<open>\w\<close>, \<open>\d\<close>, \<open>\s\<close>, an escaped punctuation character, capture groups \<open>( )\<close>,
  the alternation \<open>|\<close> and the greedy repetitions \<open>*\<close>, \<open>+\<close>, \<open>?\<close> of an item that
  cannot match the empty text.  A pattern with anything else (\<open>[ ] { } ^ $\<close>, \<open>(?\<close>,
  lazy or possessive repetition, the repetition of an item that can match the empty
  text, other escapes) is answered by \<open>NotModelled\<close>; so is a replacement template
  with \<open>\g\<close>, an octal escape or a group reference of two digits.  The backslash cannot be written inside a
  string literal, so it has a name.
\<close>

definition backslash :: char where
  "backslash = CHR 0x5C"

datatype rx =
    RChar char | RAny | RWord | RDigit | RSpace
  | RGroup nat rx | RSeq rx rx | RAlt rx rx | RStar rx | RPlus rx | ROpt rx | REmpty


text \<open>Character classes, on ASCII.\<close>

definition is_digit :: "char \<Rightarrow> bool" where
  "is_digit c = (let n = (of_char c :: nat) in 48 \<le> n \<and> n \<le> 57)"

definition is_letter :: "char \<Rightarrow> bool" where
  "is_letter c = (let n = (of_char c :: nat) in (65 \<le> n \<and> n \<le> 90) \<or> (97 \<le> n \<and> n \<le> 122))"

definition is_word :: "char \<Rightarrow> bool" where
  "is_word c = (is_letter c \<or> is_digit c \<or> c = CHR ''_'')"

definition is_space :: "char \<Rightarrow> bool" where
  "is_space c = (let n = (of_char c :: nat) in (9 \<le> n \<and> n \<le> 13) \<or> (28 \<le> n \<and> n \<le> 32))"

text \<open>A sequence and an alternation of already parsed pieces.\<close>

fun seq_of :: "rx list \<Rightarrow> rx" where
  "seq_of [] = REmpty"
| "seq_of [r] = r"
| "seq_of (r # rs) = RSeq r (seq_of rs)"

fun alt_of :: "rx list \<Rightarrow> rx" where
  "alt_of [] = REmpty"
| "alt_of [r] = r"
| "alt_of (r # rs) = RAlt r (alt_of rs)"

text \<open>
  The parser reads the pattern once from the left.  A frame is one open group (or the
  whole pattern, group number 0): the alternatives finished so far and the items of
  the current alternative, both newest first, and whether the newest item already
  carries a repetition.
\<close>

record frame =
  group_no :: nat
  alts :: "rx list"
  items :: "rx list"
  quantified :: bool

definition close_frame :: "frame \<Rightarrow> rx" where
  "close_frame f = alt_of (rev (seq_of (rev (items f)) # alts f))"

definition push_item :: "rx \<Rightarrow> frame \<Rightarrow> frame" where
  "push_item r f = f\<lparr>items := r # items f, quantified := False\<rparr>"

definition new_frame :: "nat \<Rightarrow> frame" where
  "new_frame g = \<lparr>group_no = g, alts = [], items = [], quantified = False\<rparr>"

record pstate =
  cur :: frame
  stack :: "frame list"
  ngroups :: nat
  escaped :: bool

definition on_cur :: "(frame \<Rightarrow> frame) \<Rightarrow> pstate \<Rightarrow> pstate" where
  "on_cur g st = st\<lparr>cur := g (cur st)\<rparr>"

definition parse_escape :: "char \<Rightarrow> pstate \<Rightarrow> py_exception + pstate" where
  "parse_escape e st =
     (if e = CHR ''w'' then Inr (on_cur (push_item RWord) (st\<lparr>escaped := False\<rparr>))
      else if e = CHR ''d'' then Inr (on_cur (push_item RDigit) (st\<lparr>escaped := False\<rparr>))
      else if e = CHR ''s'' then Inr (on_cur (push_item RSpace) (st\<lparr>escaped := False\<rparr>))
      else if is_letter e \<or> is_digit e then Inl NotModelled
      else Inr (on_cur (push_item (RChar e)) (st\<lparr>escaped := False\<rparr>)))"

text \<open>The pattern can match the empty text.\<close>

fun nullable :: "rx \<Rightarrow> bool" where
  "nullable (RChar c) = False"
| "nullable RAny = False"
| "nullable RWord = False"
| "nullable RDigit = False"
| "nullable RSpace = False"
| "nullable REmpty = True"
| "nullable (RGroup n r) = nullable r"
| "nullable (RSeq a b) = (nullable a \<and> nullable b)"
| "nullable (RAlt a b) = (nullable a \<or> nullable b)"
| "nullable (RStar r) = True"
| "nullable (RPlus r) = nullable r"
| "nullable (ROpt r) = True"

definition parse_repeat :: "char \<Rightarrow> pstate \<Rightarrow> py_exception + pstate" where
  "parse_repeat c st =
     (case items (cur st) of
        [] \<Rightarrow>
          if c = CHR ''?'' \<and> alts (cur st) = [] \<and> stack st \<noteq> [] then Inl NotModelled
          else Inl ReError
      | r # rs \<Rightarrow>
          if quantified (cur st) then (if c = CHR ''*'' then Inl ReError else Inl NotModelled)
          else if nullable r then Inl NotModelled
          else Inr (on_cur (\<lambda>f. f\<lparr>items :=
                      (if c = CHR ''*'' then RStar r else if c = CHR ''+'' then RPlus r else ROpt r) # rs,
                      quantified := True\<rparr>) st))"

definition parse_char :: "char \<Rightarrow> pstate \<Rightarrow> py_exception + pstate" where
  "parse_char c st =
     (if escaped st then parse_escape c st
      else if c = backslash then Inr (st\<lparr>escaped := True\<rparr>)
      else if c = CHR ''('' then
        Inr (st\<lparr>cur := new_frame (Suc (ngroups st)), stack := cur st # stack st,
                ngroups := Suc (ngroups st)\<rparr>)
      else if c = CHR '')'' then
        (case stack st of
           [] \<Rightarrow> Inl ReError
         | outer # rest \<Rightarrow>
             Inr (st\<lparr>cur := push_item (RGroup (group_no (cur st)) (close_frame (cur st))) outer,
                     stack := rest\<rparr>))
      else if c = CHR ''|'' then
        Inr (on_cur (\<lambda>f. f\<lparr>alts := seq_of (rev (items f)) # alts f, items := [],
                              quantified := False\<rparr>) st)
      else if c = CHR ''*'' \<or> c = CHR ''+'' \<or> c = CHR ''?'' then parse_repeat c st
      else if c = CHR ''.'' then Inr (on_cur (push_item RAny) st)
      else if c \<in> set ''[]{}^$'' then Inl NotModelled
      else Inr (on_cur (push_item (RChar c)) st))"

fun parse_rx :: "string \<Rightarrow> pstate \<Rightarrow> py_exception + rx \<times> nat" where
  "parse_rx [] st =
     (if escaped st \<or> stack st \<noteq> [] then Inl ReError
      else Inr (close_frame (cur st), ngroups st))"
| "parse_rx (c # cs) st =
     (case parse_char c st of Inl e \<Rightarrow> Inl e | Inr st' \<Rightarrow> parse_rx cs st')"

text \<open>
  \<open>re.compile\<close>: the parsed pattern and its number of capture groups, or \<open>re.error\<close>
  (a trailing backslash, an unbalanced parenthesis, nothing to repeat, a repeated
  \<open>*\<close>).
\<close>

definition compile_rx :: "string \<Rightarrow> py_exception + rx \<times> nat" where
  "compile_rx pattern =
     parse_rx pattern \<lparr>cur = new_frame 0, stack = [], ngroups = 0, escaped = False\<rparr>"

text \<open>
  The backtracking matcher: all ways to match a pattern at the start of \<open>s\<close>, each as
  the unmatched rest and the captures, in the order the library tries them (first
  alternative first, longest repetition first).  The test that an iteration of a
  repetition consumed something is what makes the recursion end; in a pattern the
  parser accepts every iteration does.
\<close>

type_synonym caps = "string option list"

fun rx_match :: "rx \<Rightarrow> string \<Rightarrow> caps \<Rightarrow> (string \<times> caps) list" where
  "rx_match (RChar c) s cp = (case s of [] \<Rightarrow> [] | x # xs \<Rightarrow> if x = c then [(xs, cp)] else [])"
| "rx_match RAny s cp = (case s of [] \<Rightarrow> [] | x # xs \<Rightarrow> if x \<noteq> CHR 0x0A then [(xs, cp)] else [])"
| "rx_match RWord s cp = (case s of [] \<Rightarrow> [] | x # xs \<Rightarrow> if is_word x then [(xs, cp)] else [])"
| "rx_match RDigit s cp = (case s of [] \<Rightarrow> [] | x # xs \<Rightarrow> if is_digit x then [(xs, cp)] else [])"
| "rx_match RSpace s cp = (case s of [] \<Rightarrow> [] | x # xs \<Rightarrow> if is_space x then [(xs, cp)] else [])"
| "rx_match REmpty s cp = [(s, cp)]"
| "rx_match (RGroup n r) s cp =
     map (\<lambda>p. (fst p, (snd p)[n - 1 := Some (take (length s - length (fst p)) s)])) (rx_match r s cp)"
| "rx_match (RSeq a b) s cp = concat (map (\<lambda>p. rx_match b (fst p) (snd p)) (rx_match a s cp))"
| "rx_match (RAlt a b) s cp = rx_match a s cp @ rx_match b s cp"
| "rx_match (ROpt r) s cp = rx_match r s cp @ [(s, cp)]"
| "rx_match (RStar r) s cp =
     concat (map (\<lambda>p. if length (fst p) < length s then rx_match (RStar r) (fst p) (snd p) else [])
                 (rx_match r s cp)) @ [(s, cp)]"
| "rx_match (RPlus r) s cp =
     concat (map (\<lambda>p. if length (fst p) < length s then rx_match (RStar r) (fst p) (snd p) else [p])
                 (rx_match r s cp))"


fun first_match :: "bool \<Rightarrow> string \<Rightarrow> (string \<times> caps) list \<Rightarrow> (nat \<times> caps) option" where
  "first_match must_advance s [] = None"
| "first_match must_advance s (p # ps) =
     (if must_advance \<and> length s \<le> length (fst p) then first_match must_advance s ps
      else Some (length s - length (fst p), snd p))"

lemma first_match_le: "first_match must_advance s ps = Some (k, cp) \<Longrightarrow> k \<le> length s"
  by (induction ps) (auto split: if_splits)

lemma first_match_advances: "first_match True s ps = Some (k, cp) \<Longrightarrow> 0 < k"
  by (induction ps) (auto split: if_splits)

function scan_text :: "rx \<Rightarrow> nat \<Rightarrow> bool \<Rightarrow> string \<Rightarrow> segment list" where
  "scan_text r n must_advance s =
     (case first_match must_advance s (rx_match r s (replicate n None)) of
        Some (k, cp) \<Rightarrow>
          Hit \<lparr>group0 = take k s, groups = cp\<rparr> #
            scan_text r n (k = 0) (drop k s)
      | None \<Rightarrow>
          (case s of [] \<Rightarrow> [] | c # cs \<Rightarrow> Gap [c] # scan_text r n False cs))"
  by pat_completeness auto
termination
  by (relation "measures [\<lambda>(r, n, ma, s). length s, \<lambda>(r, n, ma, s). if ma then 0 else 1]")
     (auto dest: first_match_le first_match_advances)

declare scan_text.simps [simp del]

datatype tpart = TLit char | TGroup nat

definition template_escape :: "char \<Rightarrow> char option" where
  "template_escape e =
     (if e = backslash then Some (backslash)
      else if e = CHR ''n'' then Some (CHR 0x0A)
      else if e = CHR ''r'' then Some (CHR 0x0D)
      else if e = CHR ''t'' then Some (CHR 0x09)
      else if e = CHR ''a'' then Some (CHR 0x07)
      else if e = CHR ''b'' then Some (CHR 0x08)
      else if e = CHR ''f'' then Some (CHR 0x0C)
      else if e = CHR ''v'' then Some (CHR 0x0B)
      else None)"

definition digit_val :: "char \<Rightarrow> nat" where
  "digit_val c = of_char c - 48"

fun parse_template :: "nat \<Rightarrow> string \<Rightarrow> py_exception + tpart list" where
  "parse_template n [] = Inr []"
| "parse_template n [c] = (if c = backslash then Inl ReError else Inr [TLit c])"
| "parse_template n (c # e # cs) =
     (if c \<noteq> backslash then
        (case parse_template n (e # cs) of Inl x \<Rightarrow> Inl x | Inr ps \<Rightarrow> Inr (TLit c # ps))
      else
        (case template_escape e of
           Some x \<Rightarrow> (case parse_template n cs of Inl x' \<Rightarrow> Inl x' | Inr ps \<Rightarrow> Inr (TLit x # ps))
         | None \<Rightarrow>
             if e = CHR ''g'' \<or> e = CHR ''0'' then Inl NotModelled
             else if is_digit e then
               (if cs \<noteq> [] \<and> is_digit (hd cs) then Inl NotModelled
                else if digit_val e > n then Inl ReError
                else (case parse_template n cs of Inl x' \<Rightarrow> Inl x' | Inr ps \<Rightarrow> Inr (TGroup (digit_val e) # ps)))
             else if is_letter e then Inl ReError
             else (case parse_template n cs of Inl x' \<Rightarrow> Inl x' | Inr ps \<Rightarrow> Inr (TLit c # TLit e # ps))))"

fun expand_parts :: "tpart list \<Rightarrow> re_match \<Rightarrow> string" where
  "expand_parts [] m = []"
| "expand_parts (TLit c # ps) m = c # expand_parts ps m"
| "expand_parts (TGroup i # ps) m =
     (case drop (i - 1) (groups m) of Some g # rest \<Rightarrow> g | _ \<Rightarrow> []) @ expand_parts ps m"

definition py_re :: re_engine where
  "py_re pattern =
     (case compile_rx pattern of
        Inl e \<Rightarrow> Inl e
      | Inr (r, n) \<Rightarrow>
          Inr \<lparr>finditer = scan_text r n False,
               expand = (\<lambda>repl. case parse_template n repl of
                                   Inl e \<Rightarrow> Inl e
                                 | Inr ps \<Rightarrow> Inr (expand_parts ps))\<rparr>)"

section \<open>Targets with placeholders, as the specification reads them\<close>

text \<open>A string without the character that opens a placeholder.\<close>

definition no_open_brace :: "string \<Rightarrow> bool" where
  "no_open_brace s = (CHR ''{'' \<notin> set s)"






text \<open>
  A replacement template that stands for itself: the library compiles it, and the
  compiled template gives the template's own text for every match.
\<close>

definition expands_literally :: "re_pattern \<Rightarrow> string \<Rightarrow> bool" where
  "expands_literally p repl \<longleftrightarrow> (\<exists>f. expand p repl = Inr f \<and> (\<forall>m. f m = repl))"

text \<open>The text with every match replaced by \<open>target\<close> itself.\<close>

definition keep_or :: "string \<Rightarrow> segment \<Rightarrow> string" where
  "keep_or target seg = (case seg of Gap g \<Rightarrow> g | Hit m \<Rightarrow> target)"

section \<open>The scan pipeline\<close>

definition newline :: char where
  "newline = CHR 0x0A"

text \<open>\<open>'\n'.join(lines)\<close>.\<close>

fun join_lines :: "string list \<Rightarrow> string" where
  "join_lines [] = []"
| "join_lines [l] = l"
| "join_lines (l # ls) = l @ newline # join_lines ls"

text \<open>\<open>s.split('\n')\<close>: a text without a newline is one line, also the empty text.\<close>

fun split_lines :: "string \<Rightarrow> string list" where
  "split_lines [] = [[]]"
| "split_lines (c # cs) =
     (if c = newline then [] # split_lines cs
      else (case split_lines cs of [] \<Rightarrow> [[c]] | l # ls \<Rightarrow> (c # l) # ls))"

text \<open>\<open>s.strip()\<close>: whitespace is removed at both ends.\<close>

definition py_strip :: "string \<Rightarrow> string" where
  "py_strip s = rev (dropWhile is_space (rev (dropWhile is_space s)))"

text \<open>
  \<open>extract_full_text_lines\<close> (the same in both scanners): the text of every top-level
  paragraph, then the text of every table cell, which is the cell's paragraphs joined by
  newlines.
\<close>

definition extract_full_text_lines :: "document \<Rightarrow> string list" where
  "extract_full_text_lines doc = paragraphs doc @ map join_lines (concat (concat (tables doc)))"

text \<open>\<open>full_text = '\n'.join(self.extract_full_text_lines(doc))\<close>.\<close>

definition full_text_of :: "document \<Rightarrow> string" where
  "full_text_of doc = join_lines (extract_full_text_lines doc)"

text \<open>
  \<open>scan_documents\<close> of DocXScan v3.0, for one file: the loop \<open>for token in patterns\<close>
  over the lists \<open>matched\<close> and \<open>matched_lines\<close>.  The tests are \<open>token in full_text\<close>
  and \<open>token in line\<close>.
\<close>

fun token_loop :: "string \<Rightarrow> string list \<Rightarrow> string list \<times> string list \<Rightarrow> string list \<times> string list" where
  "token_loop full_text [] acc = acc"
| "token_loop full_text (token # patterns) acc =
     (case acc of (matched, matched_lines) \<Rightarrow>
        if is_substring token full_text
        then token_loop full_text patterns
               (matched @ [token],
                matched_lines @
                  map py_strip (filter (\<lambda>line. is_substring token line) (split_lines full_text)))
        else token_loop full_text patterns (matched, matched_lines))"

text \<open>
  The lists \<open>matched\<close> and \<open>matched_lines\<close> of one file; the file gets a row in the
  report when \<open>matched\<close> is not empty.
\<close>

definition scan_file :: "string list \<Rightarrow> document \<Rightarrow> string list \<times> string list" where
  "scan_file patterns doc =
     token_loop (full_text_of doc) patterns ([], [])"

text \<open>
  \<open>get_matching_lines_combined\<close> of the legacy scanner: for every line, for every
  pattern, \<open>re.search(pattern, line)\<close>.  The inner and the outer loop, with the exception
  of a search as a result.
\<close>

fun pattern_loop :: "re_engine \<Rightarrow> string \<Rightarrow> string list \<Rightarrow> string list \<times> string set \<Rightarrow> py_exception + string list \<times> string set" where
  "pattern_loop eng line [] acc = Inr acc"
| "pattern_loop eng line (pattern # patterns) acc =
     (case acc of (matched_lines, matched_patterns) \<Rightarrow>
        (case re_search eng pattern line of
           Inl e \<Rightarrow> Inl e
         | Inr found \<Rightarrow>
             if found
             then pattern_loop eng line patterns
                    (matched_lines @ [py_strip line], insert pattern matched_patterns)
             else pattern_loop eng line patterns (matched_lines, matched_patterns)))"

fun line_loop :: "re_engine \<Rightarrow> string list \<Rightarrow> string list \<Rightarrow> string list \<times> string set \<Rightarrow> py_exception + string list \<times> string set" where
  "line_loop eng [] patterns acc = Inr acc"
| "line_loop eng (line # lines) patterns acc =
     (case pattern_loop eng line patterns acc of
        Inl e \<Rightarrow> Inl e
      | Inr acc' \<Rightarrow> line_loop eng lines patterns acc')"

text \<open>
  The function returns \<open>list(matched_patterns), matched_lines\<close>; the order of the first
  list is that of a Python set, so the model gives the set.  Any exception gives two
  empty lists.
\<close>

definition get_matching_lines_combined :: "re_engine \<Rightarrow> document \<Rightarrow> string list \<Rightarrow> string set \<times> string list" where
  "get_matching_lines_combined eng doc patterns =
     (case line_loop eng (extract_full_text_lines doc) patterns ([], {}) of
        Inl e \<Rightarrow> ({}, [])
      | Inr (matched_lines, matched_patterns) \<Rightarrow> (matched_patterns, matched_lines))"

text \<open>The library accepts the pattern.\<close>

definition compiles :: "re_engine \<Rightarrow> string \<Rightarrow> bool" where
  "compiles eng pattern = (case eng pattern of Inl e \<Rightarrow> False | Inr p \<Rightarrow> True)"

text \<open>\<open>re.search(pattern, line)\<close> finds a match.\<close>

definition search_hit :: "re_engine \<Rightarrow> string \<Rightarrow> string \<Rightarrow> bool" where
  "search_hit eng pattern line = (re_search eng pattern line = Inr True)"

text \<open>The excerpts one token adds: the trimmed lines of the full text that contain it.\<close>

definition excerpts_for :: "string \<Rightarrow> string \<Rightarrow> string list" where
  "excerpts_for full_text token =
     map py_strip (filter (\<lambda>line. is_substring token line) (split_lines full_text))"

section \<open>The batch driver: process_replacements\<close>

text \<open>
  The part of the machine the run touches.  A path holds a document the library can
  open, or something else; \<open>denied\<close> are the paths the process may not create or write.
  \<open>opened\<close> and \<open>written\<close> record, in order, every \<open>Document(file_path)\<close> call and every
  path written by \<open>doc.save\<close> or \<open>shutil.copy2\<close>.
\<close>

datatype disk_file = DocxFile document | OtherFile

record world =
  files :: "string \<rightharpoonup> disk_file"
  dirs :: "string set"
  denied :: "string set"
  opened :: "string list"
  written :: "string list"

text \<open>\<open>os.path.exists\<close>.\<close>

definition path_exists :: "world \<Rightarrow> string \<Rightarrow> bool" where
  "path_exists w p = ((case files w p of None \<Rightarrow> False | Some f \<Rightarrow> True) \<or> p \<in> dirs w)"











text \<open>
  What the run reads from the application object and its surroundings: the loaded
  files, the rules, the two settings, the output root, the user's documents folder,
  the clock as read while file \<open>i\<close> is processed, and the flag \<open>self.stop_processing\<close>
  as the check before file \<open>i\<close> reads it (another thread sets it).
\<close>

record app =
  app_loaded_files :: "string list"
  app_replacement_map :: "(string \<times> string) list"
  app_regex_mode :: bool
  app_replacement_mode :: string
  app_backup_folder :: string
  app_user_docs :: string
  app_now :: "nat \<Rightarrow> string"
  app_stop_processing :: "nat \<Rightarrow> bool"

text \<open>The local variables of the run that outlive one file.\<close>

record counters =
  processed_files :: nat
  modified_files :: nat
  total_replacements :: nat
  current_output_dir :: "string option"
  session_timestamp :: "string option"


text \<open>A file that is done: \<open>processed_files += 1\<close>.\<close>

definition file_done :: "counters \<Rightarrow> counters" where
  "file_done c = c\<lparr>processed_files := processed_files c + 1\<rparr>"

text \<open>A file that was modified and saved.\<close>

definition file_saved :: "nat \<Rightarrow> counters \<Rightarrow> counters" where
  "file_saved replacements c =
     c\<lparr>modified_files := modified_files c + 1,
       total_replacements := total_replacements c + replacements\<rparr>"

text \<open>
  The branch \<open>"Modified Copies" in mode\<close>.  The timestamp is taken when no output
  directory is known yet, and \<open>create_output_copy\<close> takes one itself when it is passed
  none.
\<close>

definition take_timestamp :: "app \<Rightarrow> nat \<Rightarrow> counters \<Rightarrow> counters" where
  "take_timestamp a i c =
     (if current_output_dir c = None then c\<lparr>session_timestamp := Some (app_now a i)\<rparr> else c)"

definition timestamp_passed :: "app \<Rightarrow> nat \<Rightarrow> counters \<Rightarrow> string" where
  "timestamp_passed a i c = (case session_timestamp c of None \<Rightarrow> app_now a i | Some t \<Rightarrow> t)"

text \<open>The first output directory is kept for the whole run.\<close>

definition keep_output_dir :: "string \<Rightarrow> counters \<Rightarrow> counters" where
  "keep_output_dir output_dir c =
     (if current_output_dir c = None then c\<lparr>current_output_dir := Some output_dir\<rparr> else c)"










text \<open>The path holds a document the library can open.\<close>

definition readable :: "world \<Rightarrow> string \<Rightarrow> bool" where
  "readable w p = (case files w p of Some (DocxFile doc) \<Rightarrow> True | _ \<Rightarrow> False)"

text \<open>The path holds a document that the rules would change.\<close>

definition would_modify :: "re_engine \<Rightarrow> app \<Rightarrow> world \<Rightarrow> string \<Rightarrow> bool" where
  "would_modify eng a w p =
     (case files w p of
        Some (DocxFile doc) \<Rightarrow>
          0 < fst (snd (perform_replacement_in_doc eng doc (app_replacement_map a) (app_regex_mode a)))
      | _ \<Rightarrow> False)"

text \<open>The same application with a flag that is never set.\<close>

definition never_stopped :: "app \<Rightarrow> app" where
  "never_stopped a = a\<lparr>app_stop_processing := (\<lambda>i. False)\<rparr>"








section \<open>Verified properties\<close>

section \<open>Sequential application of the rules\<close>

text \<open>
  Claim C2.  The rules are applied one after the other to the cumulative result, in the
  order of the mapping: the result for a mapping extended by one rule is that last rule
  applied to the result of the rules before it (or that result itself when the rule
  raises).  So a later rule sees the text an earlier rule produced: in literal mode the
  rules A to B, B to C, in that order, turn the text A into C.
\<close>

theorem apply_rules_sequential_chaining:
  "apply_rules eng regex_mode t (rules @ [rule]) =
     (let current = apply_rules eng regex_mode t rules in
      case apply_rule eng regex_mode current rule of Inl e \<Rightarrow> current | Inr t' \<Rightarrow> t')
   \<and> apply_rules eng False ''A'' [(''A'', ''B''), (''B'', ''C'')] = ''C''"
proof
  show "apply_rules eng regex_mode t (rules @ [rule]) =
     (let current = apply_rules eng regex_mode t rules in
      case apply_rule eng regex_mode current rule of Inl e \<Rightarrow> current | Inr t' \<Rightarrow> t')"
    by (induction rules arbitrary: t) (auto split: sum.splits)
  show "apply_rules eng False ''A'' [(''A'', ''B''), (''B'', ''C'')] = ''C''"
    by (simp add: apply_rule_def py_replace_def)
qed

section \<open>The counter and the detail list\<close>

















section \<open>Applying the literal rules twice\<close>

lemma is_substring_Nil [simp]: "is_substring [] t"
  by (cases t) simp_all

lemma prefix_is_substring: "prefix s t \<Longrightarrow> is_substring s t"
  by (cases t) auto

lemma is_substring_Cons: "is_substring s t \<Longrightarrow> is_substring s (c # t)"
  by simp

















section \<open>What the concrete library answers\<close>

lemma py_re_compiled:
  "compile_rx pattern = Inr (r, n) \<Longrightarrow>
   py_re pattern =
     Inr \<lparr>finditer = scan_text r n False,
          expand = (\<lambda>repl. case parse_template n repl of
                              Inl e \<Rightarrow> Inl e
                            | Inr ps \<Rightarrow> Inr (expand_parts ps))\<rparr>"
  by (simp add: py_re_def)

lemma py_re_invalid: "compile_rx pattern = Inl e \<Longrightarrow> py_re pattern = Inl e"
  by (simp add: py_re_def)

section \<open>A rule that raises is skipped\<close>

lemma apply_rules_append:
  "apply_rules eng m t (a @ b) = apply_rules eng m (apply_rules eng m t a) b"
  by (induction a arbitrary: t) (auto split: sum.splits)

lemma invalid_source_raises:
  "eng (fst rule) = Inl e \<Longrightarrow> apply_rule eng True t rule = Inl e"
  by (cases rule) (simp add: apply_rule_def re_sub_fn_def re_sub_str_def)

text \<open>
  Claim C6.  In regex mode a rule whose source the library rejects is skipped: the
  result of the paragraph's rule loop is the result of the mapping without that rule,
  so the rules before and behind it are applied and the text is unaffected by the
  rejected rule.  The same holds, in either mode, for a rule whose application raises
  any exception at the text it meets.  The loop itself is a total function whose value
  is a text: no exception of a rule leaves it.
\<close>

theorem failing_rule_is_skipped:
  "(eng (fst rule) = Inl e \<longrightarrow>
      apply_rules eng True t (before @ rule # after) = apply_rules eng True t (before @ after)) \<and>
   (apply_rule eng regex_mode (apply_rules eng regex_mode t before) rule = Inl e \<longrightarrow>
      apply_rules eng regex_mode t (before @ rule # after) =
      apply_rules eng regex_mode t (before @ after))"
proof (intro conjI impI)
  assume "eng (fst rule) = Inl e"
  then have "apply_rule eng True (apply_rules eng True t before) rule = Inl e"
    by (rule invalid_source_raises)
  then show "apply_rules eng True t (before @ rule # after) = apply_rules eng True t (before @ after)"
    by (simp add: apply_rules_append)
next
  assume "apply_rule eng regex_mode (apply_rules eng regex_mode t before) rule = Inl e"
  then show "apply_rules eng regex_mode t (before @ rule # after) =
      apply_rules eng regex_mode t (before @ after)"
    by (simp add: apply_rules_append)
qed

theorem failing_rule_is_skipped_witness:
  "py_re ''('' = Inl ReError \<and>
   apply_rule py_re True ''f00-bar'' (''(a)|-'', ''<{{match}}>'') = Inl TypeError \<and>
   apply_rules py_re True ''foo-bar'' [(''o'', ''0''), (''('', ''x''), (''(a)|-'', ''<{{match}}>''), (''b'', ''B'')] = ''f00-Bar''"
proof -
  have "compile_rx ''('' = Inl ReError" by code_simp
  then have a: "py_re ''('' = Inl ReError" by (rule py_re_invalid)
  have b: "apply_rules py_re True ''foo-bar'' [(''o'', ''0'')] = ''f00-bar''" by code_simp
  have c: "apply_rule py_re True ''f00-bar'' (''(a)|-'', ''<{{match}}>'') = Inl TypeError" by code_simp
  have d: "apply_rules py_re True ''foo-bar'' [(''o'', ''0''), (''b'', ''B'')] = ''f00-Bar''" by code_simp
  have s1: "apply_rules py_re True ''foo-bar'' ([(''o'', ''0'')] @ (''('', ''x'') # [(''(a)|-'', ''<{{match}}>''), (''b'', ''B'')])
     = apply_rules py_re True ''foo-bar'' ([(''o'', ''0'')] @ [(''(a)|-'', ''<{{match}}>''), (''b'', ''B'')])"
    using failing_rule_is_skipped [of py_re "(''('', ''x'')" ReError "''foo-bar''" "[(''o'', ''0'')]" "[(''(a)|-'', ''<{{match}}>''), (''b'', ''B'')]"] a
    by simp
  have s2: "apply_rules py_re True ''foo-bar'' ([(''o'', ''0'')] @ (''(a)|-'', ''<{{match}}>'') # [(''b'', ''B'')])
     = apply_rules py_re True ''foo-bar'' ([(''o'', ''0'')] @ [(''b'', ''B'')])"
    using failing_rule_is_skipped [of py_re "(''(a)|-'', ''<{{match}}>'')" TypeError "''foo-bar''" "[(''o'', ''0'')]" "[(''b'', ''B'')]" True] b c
    by simp
  from s1 s2 d a c show ?thesis by simp
qed

section \<open>Filling the placeholders\<close>





lemma no_open_brace_append [simp]:
  "no_open_brace (x @ y) \<longleftrightarrow> no_open_brace x \<and> no_open_brace y"
  by (auto simp: no_open_brace_def)












section \<open>Targets without a placeholder\<close>

lemma sub_segments_keep:
  "sub_segments (\<lambda>m. Inr target) segs = Inr (concat (map (keep_or target) segs))"
proof (induction segs)
  case Nil
  show ?case by simp
next
  case (Cons seg segs)
  then show ?case by (cases seg) (simp_all add: keep_or_def)
qed

lemma parse_template_literal:
  "backslash \<notin> set repl \<Longrightarrow> parse_template n repl = Inr (map TLit repl)"
  by (induction n repl rule: parse_template.induct) auto

lemma expand_parts_literal: "expand_parts (map TLit repl) m = repl"
  by (induction repl) simp_all

lemma py_re_expands_literally:
  "py_re source = Inr p \<Longrightarrow> backslash \<notin> set repl \<Longrightarrow> expands_literally p repl"
  by (auto simp: py_re_def expands_literally_def parse_template_literal expand_parts_literal
           split: sum.splits prod.splits)

text \<open>
  Claim C5, as stated, fails.  A string target is a replacement template of the
  library: with the source (a), the target \<open>[\1]\<close> turns xay into x[a]y, in which the
  target's characters do not appear; the target \<open>\n\<close> inserts a newline; and a target
  that is a single backslash is an invalid template, so the rule raises and is skipped.
\<close>

theorem backslash_target_is_expanded:
  "\<not> is_substring placeholder (''['' @ [backslash] @ ''1]'') \<and>
   re_search py_re ''(a)'' ''xay'' = Inr True \<and>
   apply_rule py_re True ''xay'' (''(a)'', ''['' @ [backslash] @ ''1]'') = Inr ''x[a]y'' \<and>
   \<not> is_substring (''['' @ [backslash] @ ''1]'') ''x[a]y'' \<and>
   apply_rule py_re True ''xay'' (''a'', [backslash, CHR ''n'']) = Inr [CHR ''x'', CHR 0x0A, CHR ''y''] \<and>
   apply_rule py_re True ''xay'' (''a'', [backslash]) = Inl ReError"
proof -
  have a: "\<not> is_substring placeholder (''['' @ [backslash] @ ''1]'')" by code_simp
  have b: "re_search py_re ''(a)'' ''xay'' = Inr True" by code_simp
  have c: "apply_rule py_re True ''xay'' (''(a)'', ''['' @ [backslash] @ ''1]'') = Inr ''x[a]y''" by code_simp
  have d: "\<not> is_substring (''['' @ [backslash] @ ''1]'') ''x[a]y''" by code_simp
  have e: "apply_rule py_re True ''xay'' (''a'', [backslash, CHR ''n'']) = Inr [CHR ''x'', CHR 0x0A, CHR ''y'']" by code_simp
  have f: "apply_rule py_re True ''xay'' (''a'', [backslash]) = Inl ReError" by code_simp
  from a b c d e f show ?thesis by blast
qed

text \<open>
  Claim C5, amended.  In regex mode, for a rule whose source the library accepts and
  whose target has no placeholder and stands for itself as a replacement template (as
  every target without a backslash does), every match of the source in the current
  text is replaced by the target, verbatim, and the text between the matches is kept.
\<close>

theorem plain_target_inserted_verbatim:
  assumes "eng source = Inr p"
    and "\<not> is_substring placeholder target"
    and "expands_literally p target"
  shows "apply_rule eng True t (source, target) =
           Inr (concat (map (keep_or target) (finditer p t)))"
proof -
  from assms(3) obtain f where f: "expand p target = Inr f" and lit: "\<And>m. f m = target"
    by (auto simp: expands_literally_def)
  have "(\<lambda>m. Inr (f m) :: py_exception + string) = (\<lambda>m. Inr target)"
    by (simp add: lit)
  then show ?thesis
    using assms(1,2) f by (simp add: apply_rule_def re_sub_str_def sub_segments_keep)
qed

theorem plain_target_inserted_verbatim_witness:
  "\<not> is_substring placeholder ''0'' \<and>
   (case py_re ''o'' of Inl e \<Rightarrow> False | Inr p \<Rightarrow> expands_literally p ''0'') \<and>
   apply_rule py_re True ''foo-bar'' (''o'', ''0'') = Inr ''f00-bar''"
proof -
  let ?p = "\<lparr>finditer = scan_text (RChar CHR ''o'') 0 False,
            expand = (\<lambda>repl. case parse_template 0 repl of
                                Inl e \<Rightarrow> Inl e
                              | Inr ps \<Rightarrow> Inr (expand_parts ps))\<rparr>"
  have c: "compile_rx ''o'' = Inr (RChar CHR ''o'', 0)" by code_simp
  have p: "py_re ''o'' = Inr ?p" by (rule py_re_compiled [OF c])
  have n: "\<not> is_substring placeholder ''0''" by (simp add: placeholder_def)
  have x: "expands_literally ?p ''0''"
    by (rule py_re_expands_literally [OF p]) (simp add: backslash_def)
  have segs: "scan_text (RChar CHR ''o'') 0 False ''foo-bar'' =
     [Gap ''f'', Hit \<lparr>group0 = ''o'', groups = []\<rparr>, Hit \<lparr>group0 = ''o'', groups = []\<rparr>,
      Gap ''-'', Gap ''b'', Gap ''a'', Gap ''r'']"
    by code_simp
  have "apply_rule py_re True ''foo-bar'' (''o'', ''0'') =
          Inr (concat (map (keep_or ''0'') (finditer ?p ''foo-bar'')))"
    by (rule plain_target_inserted_verbatim [of py_re "''o''" ?p "''0''" "''foo-bar''", OF p n x])
  then have "apply_rule py_re True ''foo-bar'' (''o'', ''0'') = Inr ''f00-bar''"
    by (simp add: segs keep_or_def)
  with n x p show ?thesis by simp
qed

section \<open>What the scanners record\<close>

lemma is_substring_sublist: "is_substring t s \<longleftrightarrow> sublist t s"
  by (induction s) (simp_all add: sublist_Cons_right)

lemma split_lines_nonempty: "split_lines s \<noteq> []"
  by (induction s) (auto split: list.splits)

lemma hd_split_lines_prefix: "prefix (hd (split_lines s)) s"
  by (induction s) (auto split: list.splits)

lemma line_in_text:
  "line \<in> set (split_lines s) \<Longrightarrow> sublist line s"
proof (induction s arbitrary: line)
  case Nil
  then show ?case by simp
next
  case (Cons c cs)
  show ?case
  proof (cases "c = newline")
    case True
    with Cons.prems have "line = [] \<or> line \<in> set (split_lines cs)" by simp
    then show ?thesis
    proof
      assume "line = []" then show ?thesis by simp
    next
      assume "line \<in> set (split_lines cs)"
      then have "sublist line cs" by (rule Cons.IH)
      then show ?thesis by (simp add: sublist_Cons_right)
    qed
  next
    case False
    obtain l ls where sp: "split_lines cs = l # ls"
      using split_lines_nonempty [of cs] by (cases "split_lines cs") auto
    with False Cons.prems have "line = c # l \<or> line \<in> set ls" by simp
    then show ?thesis
    proof
      assume l: "line = c # l"
      have "prefix l cs" using hd_split_lines_prefix [of cs] sp by simp
      then have "prefix line (c # cs)" using l by simp
      then show ?thesis by (rule prefix_imp_sublist)
    next
      assume "line \<in> set ls"
      then have "line \<in> set (split_lines cs)" using sp by simp
      then have "sublist line cs" by (rule Cons.IH)
      then show ?thesis by (simp add: sublist_Cons_right)
    qed
  qed
qed

lemma token_in_line_in_text:
  "line \<in> set (split_lines s) \<Longrightarrow> is_substring token line \<Longrightarrow> is_substring token s"
  unfolding is_substring_sublist using line_in_text sublist_order.order.trans by blast

lemma excerpts_for_unmatched:
  "\<not> is_substring token full_text \<Longrightarrow> excerpts_for full_text token = []"
  by (auto simp: excerpts_for_def filter_empty_conv dest: token_in_line_in_text)

lemma token_loop_eq:
  "token_loop full_text patterns (matched, matched_lines) =
     (matched @ filter (\<lambda>token. is_substring token full_text) patterns,
      matched_lines @ concat (map (excerpts_for full_text) patterns))"
proof (induction patterns arbitrary: matched matched_lines)
  case Nil
  show ?case by simp
next
  case (Cons token patterns)
  show ?case
  proof (cases "is_substring token full_text")
    case True
    then show ?thesis using Cons.IH by (simp add: excerpts_for_def)
  next
    case False
    then show ?thesis using Cons.IH by (simp add: excerpts_for_unmatched)
  qed
qed

lemma scan_file_eq:
  "scan_file patterns doc =
     (filter (\<lambda>token. is_substring token (full_text_of doc)) patterns,
      concat (map (excerpts_for (full_text_of doc)) patterns))"
  by (simp add: scan_file_def token_loop_eq)

lemma re_search_compiles:
  "compiles eng pattern \<Longrightarrow> re_search eng pattern line = Inr (search_hit eng pattern line)"
  by (auto simp: compiles_def re_search_def search_hit_def split: sum.splits)

lemma pattern_loop_eq:
  "list_all (compiles eng) patterns \<Longrightarrow>
   pattern_loop eng line patterns (matched_lines, matched_patterns) =
     Inr (matched_lines @ map (\<lambda>pattern. py_strip line) (filter (\<lambda>pattern. search_hit eng pattern line) patterns),
          matched_patterns \<union> {pattern \<in> set patterns. search_hit eng pattern line})"
proof (induction patterns arbitrary: matched_lines matched_patterns)
  case Nil
  show ?case by simp
next
  case (Cons pattern patterns)
  then have c: "compiles eng pattern" and cs: "list_all (compiles eng) patterns" by simp_all
  show ?case
    using Cons.IH [OF cs] re_search_compiles [OF c, of line]
    by (cases "search_hit eng pattern line") auto
qed

lemma line_loop_eq:
  "list_all (compiles eng) patterns \<Longrightarrow>
   line_loop eng lines patterns (matched_lines, matched_patterns) =
     Inr (matched_lines @
            concat (map (\<lambda>line. map (\<lambda>pattern. py_strip line)
                                   (filter (\<lambda>pattern. search_hit eng pattern line) patterns)) lines),
          matched_patterns \<union> {pattern \<in> set patterns. \<exists>line \<in> set lines. search_hit eng pattern line})"
proof (induction lines arbitrary: matched_lines matched_patterns)
  case Nil
  show ?case by simp
next
  case (Cons line lines)
  show ?case
    using Cons.IH [OF Cons.prems] pattern_loop_eq [OF Cons.prems, of line]
    by (auto simp: Un_assoc)
qed

text \<open>
  Claim C1, as stated, fails for \<open>scan_documents\<close>.  The pattern \<open>a.c\<close> as a regular
  expression is found in the line abc, but the scan records no match; the token
  \<open>PROMTINTO(\<close> of the default token file is not a valid regular expression, and the
  scan matches it in the line \<open>PROMTINTO(x)\<close>.
\<close>

theorem scan_documents_is_not_regex_search:
  "re_search py_re ''a.c'' ''abc'' = Inr True \<and>
   scan_file [''a.c''] \<lparr>paragraphs = [''abc''], tables = []\<rparr> = ([], []) \<and>
   re_search py_re ''PROMTINTO('' ''PROMTINTO(x)'' = Inl ReError \<and>
   scan_file [''PROMTINTO(''] \<lparr>paragraphs = [''PROMTINTO(x)''], tables = []\<rparr> =
     ([''PROMTINTO(''], [''PROMTINTO(x)''])"
proof -
  have a: "re_search py_re ''a.c'' ''abc'' = Inr True" by code_simp
  have b: "scan_file [''a.c''] \<lparr>paragraphs = [''abc''], tables = []\<rparr> = ([], [])" by code_simp
  have c: "re_search py_re ''PROMTINTO('' ''PROMTINTO(x)'' = Inl ReError" by code_simp
  have d: "scan_file [''PROMTINTO(''] \<lparr>paragraphs = [''PROMTINTO(x)''], tables = []\<rparr> =
     ([''PROMTINTO(''], [''PROMTINTO(x)''])" by code_simp
  from a b c d show ?thesis by blast
qed

text \<open>
  Claim C1, amended.  \<open>scan_documents\<close> decides by literal containment: the matched
  patterns are the patterns that occur in the full text as substrings, in the order of
  the pattern list, and the excerpts are the trimmed lines of the full text in which a
  pattern occurs as a substring.  The legacy \<open>get_matching_lines_combined\<close> decides by
  \<open>re.search\<close>: when the library accepts every pattern, the matched patterns are those
  a search finds in some extracted line, and the excerpts are the trimmed lines in which
  a search finds some pattern.
\<close>

theorem scan_is_literal_legacy_scan_is_search:
  "fst (scan_file patterns doc) = filter (\<lambda>token. is_substring token (full_text_of doc)) patterns \<and>
   set (snd (scan_file patterns doc)) =
     {py_strip line | line token.
        token \<in> set patterns \<and> line \<in> set (split_lines (full_text_of doc)) \<and> is_substring token line} \<and>
   (list_all (compiles eng) patterns \<longrightarrow>
      fst (get_matching_lines_combined eng doc patterns) =
        {pattern \<in> set patterns. \<exists>line. line \<in> set (extract_full_text_lines doc) \<and> search_hit eng pattern line} \<and>
      set (snd (get_matching_lines_combined eng doc patterns)) =
        {py_strip line | line pattern.
           pattern \<in> set patterns \<and> line \<in> set (extract_full_text_lines doc) \<and> search_hit eng pattern line})"
proof (intro conjI impI)
  show "fst (scan_file patterns doc) = filter (\<lambda>token. is_substring token (full_text_of doc)) patterns"
    by (simp add: scan_file_eq full_text_of_def)
  show "set (snd (scan_file patterns doc)) =
     {py_strip line | line token.
        token \<in> set patterns \<and> line \<in> set (split_lines (full_text_of doc)) \<and> is_substring token line}"
    by (auto simp: scan_file_eq full_text_of_def excerpts_for_def)
next
  assume c: "list_all (compiles eng) patterns"
  show "fst (get_matching_lines_combined eng doc patterns) =
        {pattern \<in> set patterns. \<exists>line. line \<in> set (extract_full_text_lines doc) \<and> search_hit eng pattern line}"
    using c by (auto simp: get_matching_lines_combined_def line_loop_eq)
  show "set (snd (get_matching_lines_combined eng doc patterns)) =
        {py_strip line | line pattern.
           pattern \<in> set patterns \<and> line \<in> set (extract_full_text_lines doc) \<and> search_hit eng pattern line}"
    using c by (auto simp: get_matching_lines_combined_def line_loop_eq)
qed

theorem scan_is_literal_legacy_scan_is_search_witness:
  "list_all (compiles py_re) [''a.c''] \<and>
   fst (scan_file [''a.c''] \<lparr>paragraphs = [''abc'', ''a.c''], tables = []\<rparr>) = [''a.c''] \<and>
   fst (get_matching_lines_combined py_re \<lparr>paragraphs = [''abc'', ''a.c''], tables = []\<rparr> [''a.c'']) = {''a.c''} \<and>
   snd (get_matching_lines_combined py_re \<lparr>paragraphs = [''abc'', ''a.c''], tables = []\<rparr> [''a.c'']) = [''abc'', ''a.c'']"
proof -
  let ?doc = "\<lparr>paragraphs = [''abc'', ''a.c''], tables = []\<rparr>"
  have c: "list_all (compiles py_re) [''a.c'']" by code_simp
  have l: "extract_full_text_lines ?doc = [''abc'', ''a.c'']" by code_simp
  have ft: "is_substring ''a.c'' (full_text_of ?doc)" by code_simp
  have h: "search_hit py_re ''a.c'' ''abc''" "search_hit py_re ''a.c'' ''a.c''"
    by code_simp+
  have s: "snd (get_matching_lines_combined py_re ?doc [''a.c'']) = [''abc'', ''a.c'']" by code_simp
  from scan_is_literal_legacy_scan_is_search [of "[''a.c'']" ?doc py_re] c have
    "fst (scan_file [''a.c''] ?doc) = [''a.c'']"
    "fst (get_matching_lines_combined py_re ?doc [''a.c'']) =
       {pattern \<in> set [''a.c'']. \<exists>line. line \<in> set (extract_full_text_lines ?doc) \<and> search_hit py_re pattern line}"
    by (simp_all add: ft)
  moreover have "{pattern \<in> set [''a.c'']. \<exists>line. line \<in> set (extract_full_text_lines ?doc) \<and> search_hit py_re pattern line} = {''a.c''}"
    unfolding l using h by auto
  ultimately show ?thesis using c s by simp
qed




section \<open>The dry run\<close>

lemma path_exists_opened [simp]: "path_exists (w\<lparr>opened := x\<rparr>) p = path_exists w p"
  by (simp add: path_exists_def)

lemma readable_opened [simp]: "readable (w\<lparr>opened := x\<rparr>) p = readable w p"
  by (simp add: readable_def)

lemma would_modify_opened [simp]: "would_modify eng a (w\<lparr>opened := x\<rparr>) p = would_modify eng a w p"
  by (simp add: would_modify_def)







section \<open>Stopping the run\<close>

lemma never_stopped_simps [simp]:
  "app_replacement_map (never_stopped a) = app_replacement_map a"
  "app_regex_mode (never_stopped a) = app_regex_mode a"
  "app_replacement_mode (never_stopped a) = app_replacement_mode a"
  "app_backup_folder (never_stopped a) = app_backup_folder a"
  "app_user_docs (never_stopped a) = app_user_docs a"
  "app_now (never_stopped a) = app_now a"
  "app_stop_processing (never_stopped a) i = False"
  by (simp_all add: never_stopped_def)

lemma take_timestamp_never_stopped [simp]:
  "take_timestamp (never_stopped a) i c = take_timestamp a i c"
  by (simp add: take_timestamp_def)

lemma timestamp_passed_never_stopped [simp]:
  "timestamp_passed (never_stopped a) i c = timestamp_passed a i c"
  by (simp add: timestamp_passed_def split: option.splits)












lemma file_done_processed [simp]: "processed_files (file_done c) = processed_files c + 1"
  by (simp add: file_done_def)

lemma file_saved_processed [simp]: "processed_files (file_saved n c) = processed_files c"
  by (simp add: file_saved_def)

lemma take_timestamp_processed [simp]:
  "processed_files (take_timestamp a i c) = processed_files c"
  by (simp add: take_timestamp_def)

lemma keep_output_dir_processed [simp]:
  "processed_files (keep_output_dir d c) = processed_files c"
  by (simp add: keep_output_dir_def)












end
